theory Spec2Isabelle
  imports Complex_Main "HOL-Library.Word"
begin

section \<open>JavaScript strings and values\<close>

text \<open>
  A JavaScript string is modelled as a \<open>string\<close> (a list of characters). The source only
  inspects ASCII characters (digits, capital letters, hexadecimal digits), so a character
  beyond ASCII is some non-digit, non-letter element of the list.
\<close>

definition isDigit :: "char \<Rightarrow> bool" where
  \<comment> \<open>the character class \<open>[0-9]\<close>; its complement is \<open>\D\<close>\<close>
  "isDigit c = (48 \<le> (of_char c :: nat) \<and> (of_char c :: nat) \<le> 57)"

definition isUpper :: "char \<Rightarrow> bool" where
  \<comment> \<open>the character class \<open>[A-Z]\<close>\<close>
  "isUpper c = (65 \<le> (of_char c :: nat) \<and> (of_char c :: nat) \<le> 90)"

definition charAt :: "string \<Rightarrow> int \<Rightarrow> string" where
  \<comment> \<open>\<open>s.charAt(i)\<close>: the empty string when \<open>i\<close> is out of range\<close>
  "charAt s i = (if 0 \<le> i \<and> i < int (length s) then [s ! nat i] else [])"

definition indexOrUndefined :: "string \<Rightarrow> int option \<Rightarrow> string" where
  \<comment> \<open>what \<open>code += s[i]\<close> appends: \<open>s[i]\<close> is \<open>undefined\<close> when \<open>i\<close> is out of range or
      \<open>NaN\<close> (here \<open>None\<close>), and \<open>+=\<close> then appends the text \<open>undefined\<close>\<close>
  "indexOrUndefined s i =
     (case i of
        None \<Rightarrow> ''undefined''
      | Some j \<Rightarrow> (if 0 \<le> j \<and> j < int (length s) then [s ! nat j] else ''undefined''))"

definition substring :: "string \<Rightarrow> nat \<Rightarrow> nat \<Rightarrow> string" where
  \<comment> \<open>\<open>s.substring(a, b)\<close>: both ends are clamped to the length and swapped when \<open>a > b\<close>\<close>
  "substring s a b =
     (let a' = min a (length s); b' = min b (length s)
      in take (max a' b' - min a' b') (drop (min a' b') s))"

definition substringFrom :: "string \<Rightarrow> nat \<Rightarrow> string" where
  \<comment> \<open>\<open>s.substring(a)\<close>\<close>
  "substringFrom s a = drop a s"

definition floorTimes :: "real \<Rightarrow> nat \<Rightarrow> int" where
  \<comment> \<open>\<open>Math.floor(r * n)\<close>, the product taken exactly\<close>
  "floorTimes r n = \<lfloor>r * real n\<rfloor>"

section \<open>Configuration\<close>

definition CODE_LENGTH :: nat where
  "CODE_LENGTH = 8"

definition CODE_EXPIRY_MINUTES :: nat where
  "CODE_EXPIRY_MINUTES = 10"

definition SESSION_PREFIX :: string where
  "SESSION_PREFIX = ''IAN_TECH''"

definition COMPANY_NAME :: string where
  "COMPANY_NAME = ''IAN TECH''"

definition MAX_AUTO_ACTIVATION_ATTEMPTS :: nat where
  "MAX_AUTO_ACTIVATION_ATTEMPTS = 3"

section \<open>Code generator\<close>

definition alnumChars :: string where
  \<comment> \<open>\<open>chars\<close> of \<open>generateAlphanumericCode\<close>\<close>
  "alnumChars = ''ABCDEFGHIJKLMNOPQRSTUVWXYZ0123456789''"

text \<open>
  \<open>Math.random()\<close> is modelled by the sequence \<open>rnd\<close> of the numbers it returns, read
  from position \<open>pos\<close> on. \<open>drawCode rnd pos\<close> is the \<open>for\<close> loop of
  \<open>generateAlphanumericCode\<close>: \<open>CODE_LENGTH\<close> draws, each appended with \<open>charAt\<close>.
\<close>

definition drawCode :: "(nat \<Rightarrow> real) \<Rightarrow> nat \<Rightarrow> string" where
  "drawCode rnd pos =
     fold (\<lambda>i code. code @ charAt alnumChars (floorTimes (rnd (pos + i)) (length alnumChars)))
          [0..<CODE_LENGTH] []"

text \<open>
  \<open>generateAlphanumericCode\<close> calls itself when the draw has no letter or no digit. The
  first argument is the call depth still available: the JavaScript engine raises
  \<open>RangeError\<close> when the recursion exceeds its stack, which is the result \<open>None\<close>. A
  returned code comes with the position of the next unread random number.
\<close>

fun generateAlphanumericCode :: "nat \<Rightarrow> (nat \<Rightarrow> real) \<Rightarrow> nat \<Rightarrow> (string \<times> nat) option" where
  "generateAlphanumericCode 0 rnd pos = None"
| "generateAlphanumericCode (Suc depth) rnd pos =
     (let code = drawCode rnd pos;
          hasLetters = list_ex isUpper code;
          hasNumbers = list_ex isDigit code
      in if \<not> hasLetters \<or> \<not> hasNumbers
         then generateAlphanumericCode depth rnd (pos + CODE_LENGTH)
         else Some (code, pos + CODE_LENGTH))"

definition displayChars :: string where
  \<comment> \<open>\<open>chars\<close> of \<open>generateDisplayCode\<close>: the digits and the capital letters but I and O\<close>
  "displayChars = ''0123456789ABCDEFGHJKLMNPQRSTUVWXYZ''"

fun hexValue :: "char \<Rightarrow> nat option" where
  "hexValue c =
     (let n = (of_char c :: nat)
      in if 48 \<le> n \<and> n \<le> 57 then Some (n - 48)
         else if 97 \<le> n \<and> n \<le> 102 then Some (n - 87)
         else if 65 \<le> n \<and> n \<le> 70 then Some (n - 55)
         else None)"

fun parseHexDigits :: "nat \<Rightarrow> string \<Rightarrow> nat" where
  "parseHexDigits acc [] = acc"
| "parseHexDigits acc (c # cs) =
     (case hexValue c of None \<Rightarrow> acc | Some d \<Rightarrow> parseHexDigits (16 * acc + d) cs)"

definition parseInt16 :: "string \<Rightarrow> int option" where
  \<comment> \<open>\<open>parseInt(s, 16)\<close> on a string that starts with a hexadecimal digit or with a
      character that cannot start a number: the leading digits are read, and \<open>None\<close> is
      \<open>NaN\<close>. (Leading white space, a sign and a \<open>0x\<close> prefix, which a hexadecimal
      digest never holds, are not modelled.)\<close>
  "parseInt16 s =
     (case s of
        [] \<Rightarrow> None
      | c # _ \<Rightarrow> (case hexValue c of None \<Rightarrow> None | Some _ \<Rightarrow> Some (int (parseHexDigits 0 s))))"

definition truthy :: "string option \<Rightarrow> bool" where
  \<comment> \<open>\<open>if (x)\<close> for \<open>x\<close> a string or \<open>null\<close>: \<open>null\<close> and the empty string are falsy\<close>
  "truthy x = (case x of None \<Rightarrow> False | Some s \<Rightarrow> s \<noteq> [])"

text \<open>
  \<open>generateDisplayCode md5hex rnd pos seed\<close>: \<open>md5hex s\<close> stands for
  \<open>crypto.createHash('md5').update(s).digest('hex')\<close>, a function of the external
  \<open>crypto\<close> module. \<open>NaN % n\<close> is \<open>NaN\<close>.
\<close>

definition generateDisplayCode ::
  "(string \<Rightarrow> string) \<Rightarrow> (nat \<Rightarrow> real) \<Rightarrow> nat \<Rightarrow> string option \<Rightarrow> string" where
  "generateDisplayCode md5hex rnd pos seed =
     (let chars = displayChars;
          code =
            (if truthy seed then
               (let hash = md5hex (case seed of Some s \<Rightarrow> s | None \<Rightarrow> [])
                in fold (\<lambda>i code.
                           let index = map_option (\<lambda>v. v mod int (length chars))
                                         (parseInt16 (substring hash (i * 2) (i * 2 + 2)))
                           in code @ indexOrUndefined chars index)
                        [0..<8] [])
             else
               fold (\<lambda>i code.
                       code @ indexOrUndefined chars
                                (Some (floorTimes (rnd (pos + i)) (length chars))))
                    [0..<8] [])
      in substring code 0 4 @ ''-'' @ substringFrom code 4)"

definition hexDigits :: string where
  "hexDigits = ''0123456789abcdef''"

definition toHex :: "8 word list \<Rightarrow> string" where
  \<comment> \<open>\<open>buffer.toString('hex')\<close>: two lower-case digits for each byte\<close>
  "toHex bytes = concat (map (\<lambda>b. [hexDigits ! (unat b div 16), hexDigits ! (unat b mod 16)]) bytes)"

definition toUpperCase :: "string \<Rightarrow> string" where
  \<comment> \<open>on ASCII letters, the only ones a hexadecimal text holds\<close>
  "toUpperCase s =
     map (\<lambda>c. case map_of (zip ''abcdefghijklmnopqrstuvwxyz'' ''ABCDEFGHIJKLMNOPQRSTUVWXYZ'') c of
                 Some u \<Rightarrow> u
               | None \<Rightarrow> c) s"

fun decimal :: "nat \<Rightarrow> string" where
  \<comment> \<open>a non-negative integer inside a template literal\<close>
  "decimal n =
     (if n < 10 then [''0123456789'' ! n] else decimal (n div 10) @ [''0123456789'' ! (n mod 10)])"

declare decimal.simps [simp del]

section \<open>Phone normalizer\<close>

datatype js_value = JUndefined | JNull | JBool bool | JNumber real | JString string | JObject


definition isWhiteSpace :: "char \<Rightarrow> bool" where
  \<comment> \<open>the ASCII white space \<open>trim\<close> removes (tab, line feed, vertical tab, form feed,
      carriage return, space); the white space beyond ASCII is not modelled\<close>
  "isWhiteSpace c = ((of_char c :: nat) \<in> {9, 10, 11, 12, 13, 32})"

definition trim :: "string \<Rightarrow> string" where
  "trim s = rev (dropWhile isWhiteSpace (rev (dropWhile isWhiteSpace s)))"

fun removeFirst :: "string \<Rightarrow> string \<Rightarrow> string" where
  \<comment> \<open>\<open>s.replace(pat, '')\<close> for a string pattern: the first occurrence is removed\<close>
  "removeFirst pat [] = []"
| "removeFirst pat (c # cs) =
     (if take (length pat) (c # cs) = pat then drop (length pat) (c # cs)
      else c # removeFirst pat cs)"

text \<open>The object \<open>parsePhoneNumberFromString\<close> of libphonenumber-js returns, as far as it is read.\<close>

record parsed_number =
  pn_isValid :: bool
  pn_formatInternational :: string
  pn_countryCallingCode :: string
  pn_country :: "string option"
  pn_nationalNumber :: string
  pn_number :: string

text \<open>The object \<open>phone\<close> returns; the strings are \<open>null\<close> when \<open>isValid\<close> is false.\<close>

record phone_result =
  ph_isValid :: bool
  ph_phoneNumber :: string
  ph_countryCode :: string
  ph_countryIso2 :: "string option"

text \<open>
  What a handler reads from outside the program during one run: the clock, the random
  numbers, and the functions of the external modules. A function that can throw returns a
  sum, \<open>Inl\<close> carrying the message of the error.
\<close>

record env =
  Date_now :: nat
  Math_random :: "nat \<Rightarrow> real"
  crypto_randomBytes :: "nat \<Rightarrow> 8 word list"
  crypto_md5hex :: "string \<Rightarrow> string"
  parsePhoneNumberFromString :: "string \<Rightarrow> string + parsed_number option"
  phone :: "string \<Rightarrow> string + phone_result"
  trimTypeError :: "js_value \<Rightarrow> string"
  QRCode_toDataURL :: "string \<Rightarrow> string + string"
  callDepth :: nat

text \<open>
  \<open>Date_now\<close> is the time in milliseconds of every \<open>Date.now()\<close> and \<open>new Date()\<close> of the
  run (a handler runs within one tick of the clock). \<open>Math_random e i\<close> is the result of
  the \<open>i\<close>-th call of \<open>Math.random()\<close> in the run. \<open>trimTypeError e v\<close> is the message of the
  \<open>TypeError\<close> the engine raises for \<open>v.trim()\<close> when \<open>v\<close> is not a string. \<open>callDepth\<close> is
  the depth of recursion the stack allows.
\<close>

datatype validation =
    Valid string string "string option" string string
      \<comment> \<open>\<open>{isValid: true, formatted, countryCode, country, nationalNumber, rawNumber}\<close>\<close>
  | Invalid string
      \<comment> \<open>\<open>{isValid: false, error}\<close>\<close>

definition validateAndFormatPhoneNumber :: "env \<Rightarrow> js_value \<Rightarrow> validation" where
  "validateAndFormatPhoneNumber e phoneNumber =
     (case phoneNumber of
        JString s \<Rightarrow>
          (let cleanNumber = trim s
           in case parsePhoneNumberFromString e cleanNumber of
                Inl msg \<Rightarrow> Invalid msg
              | Inr parsed \<Rightarrow>
                  (case (case parsed of
                           Some p \<Rightarrow> (if pn_isValid p then Some p else None)
                         | None \<Rightarrow> None) of
                     Some p \<Rightarrow>
                       Valid (pn_formatInternational p) (pn_countryCallingCode p) (pn_country p)
                         (pn_nationalNumber p) (pn_number p)
                   | None \<Rightarrow>
                       (case phone e cleanNumber of
                          Inl msg \<Rightarrow> Invalid msg
                        | Inr phoneResult \<Rightarrow>
                            if ph_isValid phoneResult then
                              Valid (ph_phoneNumber phoneResult) (ph_countryCode phoneResult)
                                (ph_countryIso2 phoneResult)
                                (removeFirst (''+'' @ ph_countryCode phoneResult)
                                   (ph_phoneNumber phoneResult))
                                (ph_phoneNumber phoneResult)
                            else
                              (let digitsOnly = filter isDigit cleanNumber
                               in if length digitsOnly \<ge> 8 \<and> length digitsOnly \<le> 15 then
                                    Valid (''+'' @ digitsOnly)
                                      (substring digitsOnly 0
                                         (nat (min 3 (int (length digitsOnly) - 7))))
                                      (Some ''Unknown'')
                                      (substringFrom digitsOnly
                                         (nat (min 3 (int (length digitsOnly) - 7))))
                                      (''+'' @ digitsOnly)
                                  else Invalid ''Invalid phone number format''))))
      | _ \<Rightarrow> Invalid (trimTypeError e phoneNumber))"

section \<open>Pairing registry\<close>

record pairing_record =
  code :: string
  displayCode :: string
  phoneNumber :: "string option"
  country :: "string option"
  sessionId :: string
  status :: string
  createdAt :: nat
  expiresAt :: nat
  linkedAt :: "nat option"
  linkedTo :: "string option"
  qrData :: "string option"
  qrImage :: "string option"
  attempts :: nat
  generatedBy :: string

text \<open>
  A JavaScript \<open>Map\<close> is a list of entries in insertion order: \<open>set\<close> replaces the value
  of a key that is present, in place, and appends a key that is absent.
\<close>

type_synonym registry = "(string \<times> pairing_record) list"

definition Map_has :: "('k \<times> 'v) list \<Rightarrow> 'k \<Rightarrow> bool" where
  "Map_has m k = (k \<in> set (map fst m))"

definition Map_get :: "('k \<times> 'v) list \<Rightarrow> 'k \<Rightarrow> 'v option" where
  \<comment> \<open>\<open>None\<close> is \<open>undefined\<close>\<close>
  "Map_get m k = map_of m k"

fun Map_set :: "('k \<times> 'v) list \<Rightarrow> 'k \<Rightarrow> 'v \<Rightarrow> ('k \<times> 'v) list" where
  "Map_set [] k v = [(k, v)]"
| "Map_set ((k', v') # m) k v = (if k' = k then (k, v) # m else (k', v') # Map_set m k v)"

definition Map_delete :: "('k \<times> 'v) list \<Rightarrow> 'k \<Rightarrow> ('k \<times> 'v) list" where
  "Map_delete m k = filter (\<lambda>entry. fst entry \<noteq> k) m"

text \<open>
  The callbacks handed to \<open>setTimeout\<close>: the expiry of a code (the callback closes over
  \<open>code\<close> and \<open>displayCode\<close>), \<open>() => initWhatsApp(b)\<close>, and the callback that resets the
  attempt counter before it calls \<open>initWhatsApp(true)\<close>.
\<close>

datatype timer_action =
    ExpireCode string string
  | InitWhatsApp bool
  | ResetAndInitWhatsApp

text \<open>
  The global state. \<open>activeSocket\<close> holds, for the socket, the \<open>autoActivate\<close> flag its event
  handler closes over. \<open>timers\<close> are the pending \<open>setTimeout\<close> callbacks, each with the time
  from which it may fire. The session file and the console are not part of the model.
\<close>

record server_state =
  activeSocket :: "bool option"
  currentQR :: "string option"
  qrImageDataUrl :: "string option"
  pairingCodes :: registry
  botStatus :: string
  lastGeneratedCode :: "string option"
  autoActivationAttempts :: nat
  timers :: "(nat \<times> timer_action) list"

definition initialState :: server_state where
  "initialState =
     \<lparr> activeSocket = None, currentQR = None, qrImageDataUrl = None, pairingCodes = [],
       botStatus = ''disconnected'', lastGeneratedCode = None, autoActivationAttempts = 0,
       timers = [] \<rparr>"

definition generateSessionId :: "env \<Rightarrow> string" where
  "generateSessionId e =
     SESSION_PREFIX @ ''_'' @ decimal (Date_now e) @ ''_'' @
     toUpperCase (toHex (crypto_randomBytes e 3))"

text \<open>
  \<open>generateNewPairingCode\<close> returns \<open>{code, displayCode, sessionId, expiresAt, country}\<close>
  and the new state. The result is \<open>None\<close> when \<open>generateAlphanumericCode\<close> raises, which
  is before any effect. The random numbers of the run are read by
  \<open>generateAlphanumericCode\<close> only: the session id is a non-empty seed.
\<close>

definition generateNewPairingCode ::
  "env \<Rightarrow> string option \<Rightarrow> string option \<Rightarrow> server_state \<Rightarrow>
     ((string \<times> string \<times> string \<times> nat \<times> string option) \<times> server_state) option" where
  "generateNewPairingCode e phoneNumber' country' st =
     (case generateAlphanumericCode (callDepth e) (Math_random e) 0 of
        None \<Rightarrow> None
      | Some (code', pos) \<Rightarrow>
          (let sessionId' = generateSessionId e;
               displayCode' = generateDisplayCode (crypto_md5hex e) (Math_random e) pos (Some sessionId');
               expiresAt' = Date_now e + CODE_EXPIRY_MINUTES * 60 * 1000;
               st1 = st\<lparr> pairingCodes :=
                          Map_set (pairingCodes st) code'
                            \<lparr> code = code', displayCode = displayCode',
                              phoneNumber = phoneNumber', country = country',
                              sessionId = sessionId', status = ''pending'',
                              createdAt = Date_now e, expiresAt = expiresAt',
                              linkedAt = None, linkedTo = None,
                              qrData = currentQR st, qrImage = qrImageDataUrl st,
                              attempts = 0, generatedBy = COMPANY_NAME \<rparr> \<rparr>;
               st2 = st1\<lparr> lastGeneratedCode := Some displayCode' \<rparr>;
               st3 = st2\<lparr> timers := timers st2 @
                          [(Date_now e + CODE_EXPIRY_MINUTES * 60 * 1000,
                            ExpireCode code' displayCode')] \<rparr>
           in Some ((code', displayCode', sessionId', expiresAt', country'), st3)))"

definition expireCode :: "string \<Rightarrow> server_state \<Rightarrow> server_state" where
  \<comment> \<open>the callback of the expiry timer of \<open>generateNewPairingCode\<close>\<close>
  "expireCode code' st =
     (if Map_has (pairingCodes st) code' \<and>
         (case Map_get (pairingCodes st) code' of
            Some d \<Rightarrow> status d = ''pending''
          | None \<Rightarrow> False)
      then st\<lparr> pairingCodes := Map_delete (pairingCodes st) code' \<rparr>
      else st)"

section \<open>Connection manager\<close>

text \<open>
  The loop of the \<open>connection === 'open'\<close> branch over \<open>pairingCodes.entries()\<close>: the
  entries still to visit, and the registry the loop writes to.
\<close>

fun linkPending :: "nat \<Rightarrow> registry \<Rightarrow> registry \<Rightarrow> registry" where
  "linkPending now [] m = m"
| "linkPending now ((code', d) # entries) m =
     (if status d = ''pending''
      then linkPending now entries (Map_set m code' (d\<lparr> status := ''linked'', linkedAt := Some now \<rparr>))
      else linkPending now entries m)"

definition onConnectionOpen :: "env \<Rightarrow> server_state \<Rightarrow> server_state" where
  "onConnectionOpen e st =
     (let st1 = st\<lparr> botStatus := ''online'' \<rparr>;
          st2 = st1\<lparr> autoActivationAttempts := 0 \<rparr>
      in st2\<lparr> pairingCodes := linkPending (Date_now e) (pairingCodes st2) (pairingCodes st2) \<rparr>)"

text \<open>
  The \<open>qr && autoActivate\<close> branch of the handler of \<open>connection.update\<close>. An error raised
  inside its \<open>try\<close> (by \<open>QRCode.toDataURL\<close> or by the code generator) is caught and only
  logged, and the counter is incremented after the \<open>try\<close>. The handler is taken as one
  step: what other handlers do while it awaits \<open>QRCode.toDataURL\<close> is not modelled.
\<close>

definition onQr :: "env \<Rightarrow> bool \<Rightarrow> string option \<Rightarrow> server_state \<Rightarrow> server_state" where
  "onQr e autoActivate qr st =
     (if truthy qr \<and> autoActivate then
        (let st1 = st\<lparr> currentQR := qr, botStatus := ''qr_ready'' \<rparr>;
             st2 =
               (case QRCode_toDataURL e (case qr of Some q \<Rightarrow> q | None \<Rightarrow> []) of
                  Inl msg \<Rightarrow> st1
                | Inr url \<Rightarrow>
                    (let st1' = st1\<lparr> qrImageDataUrl := Some url \<rparr>
                     in case generateNewPairingCode e None None st1' of
                          None \<Rightarrow> st1'
                        | Some ((code', rest), st1'') \<Rightarrow> st1''\<lparr> lastGeneratedCode := Some code' \<rparr>))
         in st2\<lparr> autoActivationAttempts := autoActivationAttempts st2 + 1 \<rparr>)
      else st)"

text \<open>
  \<open>initWhatsApp\<close>: the body of its \<open>try\<close> calls the external library only, so its outcome
  is a parameter: it returns the socket, or it throws and the \<open>catch\<close> block runs.
\<close>

datatype init_outcome = InitReturns | InitThrows

definition initWhatsApp :: "env \<Rightarrow> init_outcome \<Rightarrow> bool \<Rightarrow> server_state \<Rightarrow> server_state" where
  "initWhatsApp e outcome autoActivate st =
     (let st1 = st\<lparr> botStatus := ''connecting'' \<rparr>
      in case outcome of
           InitReturns \<Rightarrow> st1\<lparr> activeSocket := Some autoActivate \<rparr>
         | InitThrows \<Rightarrow>
             (let st2 = st1\<lparr> botStatus := ''error'' \<rparr>
              in if autoActivationAttempts st2 < MAX_AUTO_ACTIVATION_ATTEMPTS
                 then st2\<lparr> timers := timers st2 @ [(Date_now e + 10000, InitWhatsApp True)] \<rparr>
                 else st2\<lparr> timers := timers st2 @ [(Date_now e + 30000, ResetAndInitWhatsApp)] \<rparr>))"

definition runTimerAction ::
  "env \<Rightarrow> init_outcome \<Rightarrow> timer_action \<Rightarrow> server_state \<Rightarrow> server_state" where
  "runTimerAction e outcome a st =
     (case a of
        ExpireCode code' displayCode' \<Rightarrow> expireCode code' st
      | InitWhatsApp autoActivate \<Rightarrow> initWhatsApp e outcome autoActivate st
      | ResetAndInitWhatsApp \<Rightarrow> initWhatsApp e outcome True (st\<lparr> autoActivationAttempts := 0 \<rparr>))"

definition fireTimer ::
  "env \<Rightarrow> init_outcome \<Rightarrow> nat \<times> timer_action \<Rightarrow> server_state \<Rightarrow> server_state" where
  \<comment> \<open>a pending timer fires once, at or after its time\<close>
  "fireTimer e outcome t st =
     (if t \<in> set (timers st) \<and> fst t \<le> Date_now e
      then runTimerAction e outcome (snd t) (st\<lparr> timers := remove1 t (timers st) \<rparr>)
      else st)"

section \<open>HTTP API\<close>








section \<open>Sample inputs\<close>

text \<open>
  An environment for the concrete runs below: a clock at 1000 ms, random numbers whose
  first draw of eight is the code \<open>A1111111\<close>, libraries that reject every phone number.
\<close>

definition sampleEnv :: env where
  "sampleEnv =
     \<lparr> Date_now = 1000,
       Math_random = (\<lambda>i. if i = 0 then 0 else 3 / 4),
       crypto_randomBytes = (\<lambda>n. replicate n 171),
       crypto_md5hex = (\<lambda>s. ''00ff21a00b0c0d0e0f00000000000000''),
       parsePhoneNumberFromString = (\<lambda>s. Inr None),
       phone = (\<lambda>s. Inr \<lparr> ph_isValid = False, ph_phoneNumber = [], ph_countryCode = [],
                           ph_countryIso2 = None \<rparr>),
       trimTypeError = (\<lambda>v. ''phoneNumber.trim is not a function''),
       QRCode_toDataURL = (\<lambda>s. Inr (''data:image/png;base64,'' @ s)),
       callDepth = 100 \<rparr>"

text \<open>
  A record as \<open>generateNewPairingCode\<close> stores it, with a given code, status and
  \<open>linkedAt\<close>, and a registry of three records: one pending, one linked, one expired.
\<close>

definition sampleRecord :: "string \<Rightarrow> string \<Rightarrow> nat option \<Rightarrow> pairing_record" where
  "sampleRecord c s l =
     \<lparr> code = c, displayCode = ''7K2M-9QRS'', phoneNumber = Some ''+254 723 278526'',
       country = Some ''KE'', sessionId = ''IAN_TECH_5_C0FFEE'', status = s, createdAt = 5,
       expiresAt = 600005, linkedAt = l, linkedTo = None, qrData = None, qrImage = None,
       attempts = 0, generatedBy = COMPANY_NAME \<rparr>"

definition sampleState :: server_state where
  "sampleState =
     initialState
       \<lparr> pairingCodes :=
           [(''AAAA1111'', sampleRecord ''AAAA1111'' ''pending'' None),
            (''BBBB2222'', sampleRecord ''BBBB2222'' ''linked'' (Some 7)),
            (''CCCC3333'', sampleRecord ''CCCC3333'' ''expired'' None)],
         botStatus := ''qr_ready'' \<rparr>"

text \<open>A registry that already holds a linked record under the code the sample draws.\<close>

definition collisionState :: server_state where
  "collisionState =
     initialState
       \<lparr> pairingCodes := [(''A1111111'', sampleRecord ''A1111111'' ''linked'' (Some 7))],
         botStatus := ''online'' \<rparr>"

text \<open>
  The state after one \<open>generateNewPairingCode()\<close> in the sample environment, from the
  initial state, and the environment ten minutes later.
\<close>

definition sampleGenerated :: server_state where
  "sampleGenerated =
     (case generateNewPairingCode sampleEnv None None initialState of
        Some (r, s) \<Rightarrow> s
      | None \<Rightarrow> initialState)"

definition laterEnv :: env where
  "laterEnv = sampleEnv\<lparr> Date_now := 601000 \<rparr>"

section \<open>Verified properties\<close>

subsection \<open>Code generator\<close>

lemma fold_append_concat:
  "fold (\<lambda>i acc. acc @ f i) xs a = a @ concat (map f xs)"
  by (induction xs arbitrary: a) simp_all

lemma floorTimes_range:
  assumes "0 \<le> r" and "r < 1" and "0 < n"
  shows "0 \<le> floorTimes r n \<and> floorTimes r n < int n"
proof -
  have "0 \<le> r * real n" using assms by simp
  moreover have "r * real n < real n" using assms by simp
  ultimately show ?thesis
    unfolding floorTimes_def by (simp add: floor_less_iff)
qed









lemma generateAlphanumericCode_returns:
  "k < depth \<Longrightarrow>
   list_ex isUpper (drawCode rnd (pos + CODE_LENGTH * k)) \<Longrightarrow>
   list_ex isDigit (drawCode rnd (pos + CODE_LENGTH * k)) \<Longrightarrow>
   \<exists>c p. generateAlphanumericCode depth rnd pos = Some (c, p)"
proof (induction depth arbitrary: pos k)
  case 0
  then show ?case by simp
next
  case (Suc depth)
  show ?case
  proof (cases "list_ex isUpper (drawCode rnd pos) \<and> list_ex isDigit (drawCode rnd pos)")
    case True
    then show ?thesis by (simp add: Let_def)
  next
    case False
    then obtain k' where k': "k = Suc k'"
      using Suc.prems by (cases k) auto
    then have "k' < depth" using Suc.prems by simp
    moreover have "pos + CODE_LENGTH * k = (pos + CODE_LENGTH) + CODE_LENGTH * k'"
      using k' by simp
    ultimately have "\<exists>c p. generateAlphanumericCode depth rnd (pos + CODE_LENGTH) = Some (c, p)"
      using Suc.IH[of k' "pos + CODE_LENGTH"] Suc.prems(2,3) by metis
    with False show ?thesis by (auto simp: Let_def)
  qed
qed



subsection \<open>Display code\<close>

lemma concat_singletons_in:
  "(\<And>x. x \<in> set xs \<Longrightarrow> \<exists>c \<in> A. f x = [c]) \<Longrightarrow>
     length (concat (map f xs)) = length xs \<and> set (concat (map f xs)) \<subseteq> A"
proof (induction xs)
  case Nil
  then show ?case by simp
next
  case (Cons x xs)
  from Cons.prems[of x] obtain c where c: "c \<in> A" "f x = [c]" by auto
  have "length (concat (map f xs)) = length xs \<and> set (concat (map f xs)) \<subseteq> A"
    using Cons.IH Cons.prems by simp
  with c show ?case by simp
qed

lemma indexOrUndefined_in:
  "0 \<le> j \<Longrightarrow> j < int (length s) \<Longrightarrow> \<exists>c \<in> set s. indexOrUndefined s (Some j) = [c]"
  by (simp add: indexOrUndefined_def)

lemma hexValue_hexDigits: "c \<in> set hexDigits \<Longrightarrow> hexValue c \<noteq> None"
  by (auto simp: hexDigits_def)

lemma parseInt16_hex:
  "s \<noteq> [] \<Longrightarrow> hd s \<in> set hexDigits \<Longrightarrow> \<exists>v. parseInt16 s = Some v \<and> 0 \<le> v"
  using hexValue_hexDigits by (cases s) (auto simp: parseInt16_def split: option.splits)

lemma substring_pair:
  assumes "i * 2 < length h"
  shows "substring h (i * 2) (i * 2 + 2) \<noteq> [] \<and> hd (substring h (i * 2) (i * 2 + 2)) = h ! (i * 2)"
proof -
  have "substring h (i * 2) (i * 2 + 2) = take (min (i * 2 + 2) (length h) - i * 2) (drop (i * 2) h)"
    using assms by (simp add: substring_def Let_def min_def max_def)
  moreover have "0 < min (i * 2 + 2) (length h) - i * 2" using assms by simp
  moreover have "drop (i * 2) h \<noteq> []" using assms by simp
  ultimately show ?thesis
    using assms by (simp add: hd_drop_conv_nth take_eq_Nil)
qed

lemma displayChars_classes:
  "\<forall>c \<in> set displayChars. (isDigit c \<or> isUpper c) \<and> c \<noteq> CHR ''I'' \<and> c \<noteq> CHR ''O''"
  by (simp add: displayChars_def isUpper_def isDigit_def)

lemma hashed_index:
  assumes "length h = 32" and "\<forall>c \<in> set h. c \<in> set hexDigits" and "i < 8"
  shows "\<exists>c \<in> set displayChars.
           indexOrUndefined displayChars
             (map_option (\<lambda>v. v mod int (length displayChars))
                (parseInt16 (substring h (i * 2) (i * 2 + 2)))) = [c]"
proof -
  have lt: "i * 2 < length h" using assms by simp
  let ?s = "substring h (i * 2) (i * 2 + 2)"
  from substring_pair[OF lt] have ne: "?s \<noteq> []" and hd: "hd ?s = h ! (i * 2)" by auto
  have "hd ?s \<in> set hexDigits" using hd lt assms(2) by simp
  from parseInt16_hex[OF ne this] obtain v where v: "parseInt16 ?s = Some v" "0 \<le> v" by blast
  have pos: "0 < int (length displayChars)" by (simp add: displayChars_def)
  have "0 \<le> v mod int (length displayChars)" "v mod int (length displayChars) < int (length displayChars)"
    using pos by simp_all
  from indexOrUndefined_in[OF this] show ?thesis using v by simp
qed

lemma random_index:
  assumes "0 \<le> r" and "r < 1"
  shows "\<exists>c \<in> set displayChars.
           indexOrUndefined displayChars (Some (floorTimes r (length displayChars))) = [c]"
proof -
  have "0 < length displayChars" by (simp add: displayChars_def)
  from floorTimes_range[OF assms this] indexOrUndefined_in show ?thesis by blast
qed

lemma generateDisplayCode_groups:
  assumes "length code' = 8"
  shows "substring code' 0 4 = take 4 code' \<and> substringFrom code' 4 = drop 4 code'"
  using assms by (simp add: substring_def substringFrom_def)

text \<open>
  C4. For every seed (a string, the empty string or none), \<open>generateDisplayCode\<close> returns
  two groups of 4 characters joined by a hyphen, every character being one of the 34
  characters of its alphabet: a digit or a capital letter, and neither I nor O. The
  digest of the external \<open>crypto\<close> module is a text of 32 hexadecimal digits, and
  \<open>Math.random()\<close> returns numbers from 0 (included) to 1 (excluded).
\<close>

theorem generateDisplayCode_format:
  assumes hex: "\<forall>s. length (md5hex s) = 32 \<and> (\<forall>c \<in> set (md5hex s). c \<in> set hexDigits)"
    and rnd: "\<forall>i. 0 \<le> rnd i \<and> rnd i < 1"
  shows "\<exists>g1 g2. generateDisplayCode md5hex rnd pos seed = g1 @ ''-'' @ g2 \<and>
           length g1 = 4 \<and> length g2 = 4 \<and>
           (\<forall>c \<in> set (g1 @ g2).
              c \<in> set ''0123456789ABCDEFGHJKLMNPQRSTUVWXYZ'' \<and>
              (isDigit c \<or> isUpper c) \<and> c \<noteq> CHR ''I'' \<and> c \<noteq> CHR ''O'')"
proof -
  define h where "h = md5hex (case seed of Some s \<Rightarrow> s | None \<Rightarrow> [])"
  define f where "f = (\<lambda>i. indexOrUndefined displayChars
             (map_option (\<lambda>v. v mod int (length displayChars))
                (parseInt16 (substring h (i * 2) (i * 2 + 2)))))"
  define g where "g = (\<lambda>i. indexOrUndefined displayChars
             (Some (floorTimes (rnd (pos + i)) (length displayChars))))"
  define code' where "code' = (if truthy seed then concat (map f [0..<8]) else concat (map g [0..<8]))"
  have h: "length h = 32" "\<forall>c \<in> set h. c \<in> set hexDigits" using hex by (simp_all add: h_def)
  have fi: "\<And>i. i \<in> set [0..<8] \<Longrightarrow> \<exists>c \<in> set displayChars. f i = [c]"
    unfolding f_def using hashed_index[OF h] by simp
  have gi: "\<And>i. i \<in> set [0..<8] \<Longrightarrow> \<exists>c \<in> set displayChars. g i = [c]"
    unfolding g_def using random_index rnd by simp
  have len: "length code' = 8" and sub: "set code' \<subseteq> set displayChars"
    using concat_singletons_in[of "[0..<8]" "set displayChars" f, OF fi]
          concat_singletons_in[of "[0..<8]" "set displayChars" g, OF gi]
    by (auto simp: code'_def)
  have res: "generateDisplayCode md5hex rnd pos seed = substring code' 0 4 @ ''-'' @ substringFrom code' 4"
    unfolding generateDisplayCode_def code'_def f_def g_def h_def
    by (simp add: Let_def fold_append_concat)
  have "set (take 4 code' @ drop 4 code') \<subseteq> set displayChars"
    using sub by (metis append_take_drop_id)
  then have "\<forall>c \<in> set (take 4 code' @ drop 4 code').
      c \<in> set ''0123456789ABCDEFGHJKLMNPQRSTUVWXYZ'' \<and> (isDigit c \<or> isUpper c) \<and> c \<noteq> CHR ''I'' \<and> c \<noteq> CHR ''O''"
    using displayChars_classes unfolding displayChars_def by blast
  moreover have "length (take 4 code') = 4" "length (drop 4 code') = 4" using len by simp_all
  ultimately show ?thesis
    using res generateDisplayCode_groups[OF len] by metis
qed

theorem generateDisplayCode_format_witness:
  "generateDisplayCode (\<lambda>s. ''00ff21a00b0c0d0e0f00000000000000'') (\<lambda>i. 3 / 4) 0 (Some ''IAN_TECH_1'')
     = ''0HZQ'' @ ''-'' @ ''BCDE'' \<and>
   generateDisplayCode (\<lambda>s. ''00ff21a00b0c0d0e0f00000000000000'') (\<lambda>i. 3 / 4) 0 None
     = ''RRRR'' @ ''-'' @ ''RRRR'' \<and>
   (\<exists>g1 g2. generateDisplayCode (\<lambda>s. ''00ff21a00b0c0d0e0f00000000000000'') (\<lambda>i. 3 / 4) 0 None
       = g1 @ ''-'' @ g2 \<and> length g1 = 4 \<and> length g2 = 4 \<and>
       (\<forall>c \<in> set (g1 @ g2).
              c \<in> set ''0123456789ABCDEFGHJKLMNPQRSTUVWXYZ'' \<and>
              (isDigit c \<or> isUpper c) \<and> c \<noteq> CHR ''I'' \<and> c \<noteq> CHR ''O''))"
proof -
  have hex: "\<forall>s::string. length ''00ff21a00b0c0d0e0f00000000000000'' = 32 \<and>
      (\<forall>c \<in> set ''00ff21a00b0c0d0e0f00000000000000''. c \<in> set hexDigits)"
    by (simp add: hexDigits_def)
  have rnd: "\<forall>i::nat. 0 \<le> (3 / 4 :: real) \<and> (3 / 4 :: real) < 1" by simp
  have a: "generateDisplayCode (\<lambda>s. ''00ff21a00b0c0d0e0f00000000000000'') (\<lambda>i. 3 / 4) 0 (Some ''IAN_TECH_1'')
     = ''0HZQ'' @ ''-'' @ ''BCDE''"
    by (simp add: generateDisplayCode_def displayChars_def truthy_def substring_def
        substringFrom_def parseInt16_def indexOrUndefined_def upt_rec)
  have b: "generateDisplayCode (\<lambda>s. ''00ff21a00b0c0d0e0f00000000000000'') (\<lambda>i. 3 / 4) 0 None
     = ''RRRR'' @ ''-'' @ ''RRRR''"
    by (simp add: generateDisplayCode_def displayChars_def truthy_def substring_def
        substringFrom_def floorTimes_def indexOrUndefined_def upt_rec)
  from generateDisplayCode_format[OF hex rnd, of 0 None] a b show ?thesis by blast
qed

subsection \<open>Phone normalizer\<close>

lemma filter_dropWhile_disjoint:
  "(\<And>x. q x \<Longrightarrow> \<not> p x) \<Longrightarrow> filter p (dropWhile q xs) = filter p xs"
  by (induction xs) auto

lemma whiteSpace_not_digit: "isWhiteSpace c \<Longrightarrow> \<not> isDigit c"
  by (auto simp: isWhiteSpace_def isDigit_def)

lemma digits_of_trim: "filter isDigit (trim s) = filter isDigit s"
proof -
  have "filter isDigit (trim s) = rev (filter isDigit (dropWhile isWhiteSpace (rev (dropWhile isWhiteSpace s))))"
    by (simp add: trim_def rev_filter)
  also have "\<dots> = rev (filter isDigit (rev (dropWhile isWhiteSpace s)))"
    using whiteSpace_not_digit by (simp add: filter_dropWhile_disjoint)
  also have "\<dots> = filter isDigit (dropWhile isWhiteSpace s)"
    by (simp add: rev_filter)
  also have "\<dots> = filter isDigit s"
    using whiteSpace_not_digit by (simp add: filter_dropWhile_disjoint)
  finally show ?thesis .
qed

lemma validate_fallback_eq:
  assumes "parsePhoneNumberFromString e (trim s) = Inr parsed"
    and "case parsed of Some p \<Rightarrow> \<not> pn_isValid p | None \<Rightarrow> True"
    and "phone e (trim s) = Inr phoneResult"
    and "\<not> ph_isValid phoneResult"
  shows "validateAndFormatPhoneNumber e (JString s) =
     (let digitsOnly = filter isDigit s
      in if length digitsOnly \<ge> 8 \<and> length digitsOnly \<le> 15 then
           Valid (''+'' @ digitsOnly)
             (substring digitsOnly 0 (nat (min 3 (int (length digitsOnly) - 7))))
             (Some ''Unknown'')
             (substringFrom digitsOnly (nat (min 3 (int (length digitsOnly) - 7))))
             (''+'' @ digitsOnly)
         else Invalid ''Invalid phone number format'')"
  using assms
  by (auto simp: validateAndFormatPhoneNumber_def Let_def digits_of_trim split: option.splits)

text \<open>
  C5. When both library parses fail (neither throws, the first returns nothing or an
  invalid number, the second an invalid result), \<open>validateAndFormatPhoneNumber\<close> strips
  every non-digit from the input and accepts it if and only if 8 to 15 digits remain.
  The country code is then the first \<open>min 3 (n - 7)\<close> of the \<open>n\<close> digits: between 1 and
  3 digits, fewer than 3 exactly when 3 would leave fewer than 7 digits to the national
  number, which is the rest. Outside 8 to 15 digits (letters only, the empty string, more
  than 15 digits) the result is \<open>isValid: false\<close>.
\<close>

theorem validateAndFormatPhoneNumber_fallback:
  assumes "parsePhoneNumberFromString e (trim s) = Inr parsed"
    and "case parsed of Some p \<Rightarrow> \<not> pn_isValid p | None \<Rightarrow> True"
    and "phone e (trim s) = Inr phoneResult"
    and "\<not> ph_isValid phoneResult"
  shows "(if 8 \<le> length (filter isDigit s) \<and> length (filter isDigit s) \<le> 15
          then \<exists>cc nn.
                 validateAndFormatPhoneNumber e (JString s) =
                   Valid (''+'' @ filter isDigit s) cc (Some ''Unknown'') nn (''+'' @ filter isDigit s) \<and>
                 cc @ nn = filter isDigit s \<and>
                 length cc = min 3 (length (filter isDigit s) - 7) \<and>
                 1 \<le> length cc \<and> length cc \<le> 3 \<and> 7 \<le> length nn \<and>
                 (length cc < 3 \<longrightarrow> length nn = 7)
          else validateAndFormatPhoneNumber e (JString s) = Invalid ''Invalid phone number format'')"
proof (cases "8 \<le> length (filter isDigit s) \<and> length (filter isDigit s) \<le> 15")
  case False
  have "validateAndFormatPhoneNumber e (JString s) = Invalid ''Invalid phone number format''"
    unfolding validate_fallback_eq[OF assms] Let_def if_not_P[OF False] ..
  then show ?thesis
    unfolding if_not_P[OF False] .
next
  case True
  define ds where "ds = filter isDigit s"
  define k where "k = nat (min 3 (int (length ds) - 7))"
  have n: "8 \<le> length ds" "length ds \<le> 15" using True by (simp_all add: ds_def)
  have k: "k = min 3 (length ds - 7)" using n unfolding k_def by linarith
  have v: "validateAndFormatPhoneNumber e (JString s) =
      Valid (''+'' @ ds) (substring ds 0 k) (Some ''Unknown'') (substringFrom ds k) (''+'' @ ds)"
    unfolding validate_fallback_eq[OF assms] Let_def if_P[OF True] ds_def k_def ..
  have cc: "substring ds 0 k = take k ds" using n k by (simp add: substring_def Let_def min_def)
  have nn: "substringFrom ds k = drop k ds" by (simp add: substringFrom_def)
  have kb: "1 \<le> k" "k \<le> 3" "k \<le> length ds" "7 \<le> length ds - k"
    "k < 3 \<longrightarrow> length ds - k = 7"
    using n k by auto
  have lt: "length (take k ds) = k" using kb(3) by simp
  have "take k ds @ drop k ds = ds" by simp
  moreover have "length (take k ds) = min 3 (length ds - 7)" using lt k by simp
  moreover have "1 \<le> length (take k ds)" "length (take k ds) \<le> 3" using lt kb by simp_all
  moreover have "7 \<le> length (drop k ds)" using kb by simp
  moreover have "length (take k ds) < 3 \<longrightarrow> length (drop k ds) = 7" using lt kb by simp
  ultimately have "\<exists>cc nn.
                 validateAndFormatPhoneNumber e (JString s) =
                   Valid (''+'' @ ds) cc (Some ''Unknown'') nn (''+'' @ ds) \<and>
                 cc @ nn = ds \<and>
                 length cc = min 3 (length ds - 7) \<and>
                 1 \<le> length cc \<and> length cc \<le> 3 \<and> 7 \<le> length nn \<and>
                 (length cc < 3 \<longrightarrow> length nn = 7)"
    using v cc nn by metis
  then show ?thesis
    unfolding if_P[OF True] ds_def .
qed

theorem validateAndFormatPhoneNumber_fallback_witness:
  "validateAndFormatPhoneNumber sampleEnv (JString '' 0712-345 678 '') =
     Valid ''+0712345678'' ''071'' (Some ''Unknown'') ''2345678'' ''+0712345678'' \<and>
   validateAndFormatPhoneNumber sampleEnv (JString ''12345678'') =
     Valid ''+12345678'' ''1'' (Some ''Unknown'') ''2345678'' ''+12345678'' \<and>
   validateAndFormatPhoneNumber sampleEnv (JString ''abc'') = Invalid ''Invalid phone number format'' \<and>
   validateAndFormatPhoneNumber sampleEnv (JString '''') = Invalid ''Invalid phone number format'' \<and>
   validateAndFormatPhoneNumber sampleEnv (JString ''1234567'') = Invalid ''Invalid phone number format'' \<and>
   validateAndFormatPhoneNumber sampleEnv (JString ''1234567890123456'') =
     Invalid ''Invalid phone number format''"
proof -
  have p: "\<And>s. parsePhoneNumberFromString sampleEnv (trim s) = Inr None"
    by (simp add: sampleEnv_def)
  have q: "case (None :: parsed_number option) of Some p \<Rightarrow> \<not> pn_isValid p | None \<Rightarrow> True"
    by simp
  have r: "\<And>s. phone sampleEnv (trim s) =
      Inr \<lparr> ph_isValid = False, ph_phoneNumber = [], ph_countryCode = [], ph_countryIso2 = None \<rparr>"
    by (simp add: sampleEnv_def)
  have i: "\<not> ph_isValid \<lparr> ph_isValid = False, ph_phoneNumber = [], ph_countryCode = [], ph_countryIso2 = None \<rparr>"
    by simp
  note th = validateAndFormatPhoneNumber_fallback[OF p q r i]
  have d: "filter isDigit '' 0712-345 678 '' = ''0712345678''"
          "filter isDigit ''12345678'' = ''12345678''"
          "filter isDigit ''abc'' = []" "filter isDigit '''' = []"
          "filter isDigit ''1234567'' = ''1234567''"
          "filter isDigit ''1234567890123456'' = ''1234567890123456''"
    by (simp_all add: isDigit_def)
  have a1: "validateAndFormatPhoneNumber sampleEnv (JString '' 0712-345 678 '') =
     Valid ''+0712345678'' ''071'' (Some ''Unknown'') ''2345678'' ''+0712345678''"
    using th[of "'' 0712-345 678 ''"] unfolding d
    by (auto simp: append_eq_conv_conj)
  have a2: "validateAndFormatPhoneNumber sampleEnv (JString ''12345678'') =
     Valid ''+12345678'' ''1'' (Some ''Unknown'') ''2345678'' ''+12345678''"
    using th[of "''12345678''"] unfolding d
    by (auto simp: append_eq_conv_conj)
  show ?thesis
    using a1 a2 th[of "''abc''"] th[of "''''"] th[of "''1234567''"] th[of "''1234567890123456''"]
    unfolding d by simp
qed

subsection \<open>Pairing registry: the connection opens\<close>

lemma Map_set_keys:
  "map fst (Map_set m k v) = (if k \<in> set (map fst m) then map fst m else map fst m @ [k])"
  by (induction m) force+

lemma Map_set_distinct: "distinct (map fst m) \<Longrightarrow> distinct (map fst (Map_set m k v))"
  by (simp add: Map_set_keys)

lemma Map_get_set: "Map_get (Map_set m k v) k' = (if k' = k then Some v else Map_get m k')"
  by (induction m) (auto simp: Map_get_def)

lemma Map_set_length:
  "length (Map_set m k v) = (if Map_has m k then length m else Suc (length m))"
  unfolding Map_has_def by (induction m) force+

lemma Map_has_get: "Map_has m k \<longleftrightarrow> Map_get m k \<noteq> None"
  by (simp add: Map_has_def Map_get_def map_of_eq_None_iff)

lemma Map_get_delete: "Map_get (Map_delete m k) k' = (if k' = k then None else Map_get m k')"
  by (induction m) (auto simp: Map_get_def Map_delete_def)

lemma Map_delete_distinct: "distinct (map fst m) \<Longrightarrow> distinct (map fst (Map_delete m k))"
  by (simp add: Map_delete_def distinct_map_filter)

lemma Map_set_middle:
  "k \<notin> fst ` set xs \<Longrightarrow> Map_set (xs @ (k, v) # ys) k v' = xs @ (k, v') # ys"
  by (induction xs) auto

lemma linkPending_prefix:
  "distinct (map fst (pre @ es)) \<Longrightarrow>
     linkPending now es
       (map (\<lambda>(c, d). (c, if status d = ''pending''
                           then d\<lparr> status := ''linked'', linkedAt := Some now \<rparr> else d)) pre @ es) =
     map (\<lambda>(c, d). (c, if status d = ''pending''
                         then d\<lparr> status := ''linked'', linkedAt := Some now \<rparr> else d)) (pre @ es)"
proof (induction es arbitrary: pre)
  case Nil
  then show ?case by simp
next
  case (Cons entry es)
  obtain c d where entry: "entry = (c, d)" by (cases entry)
  let ?l = "\<lambda>d. if status d = ''pending'' then d\<lparr> status := ''linked'', linkedAt := Some now \<rparr> else d"
  let ?f = "\<lambda>(c, d). (c, ?l d)"
  have notin: "c \<notin> fst ` set (map ?f pre)"
    using Cons.prems entry by (force simp: image_iff)
  have d': "distinct (map fst ((pre @ [(c, d)]) @ es))" using Cons.prems entry by simp
  have step: "linkPending now ((c, d) # es) (map ?f pre @ (c, d) # es) =
              linkPending now es (map ?f pre @ (c, ?l d) # es)"
  proof (cases "status d = ''pending''")
    case True
    then show ?thesis using Map_set_middle[OF notin] by simp
  next
    case False
    then show ?thesis by simp
  qed
  have "linkPending now es (map ?f (pre @ [(c, d)]) @ es) = map ?f ((pre @ [(c, d)]) @ es)"
    using Cons.IH[OF d'] .
  then show ?case using step entry by simp
qed

lemma linkPending_all:
  "distinct (map fst m) \<Longrightarrow>
     linkPending now m m =
     map (\<lambda>(c, d). (c, if status d = ''pending''
                         then d\<lparr> status := ''linked'', linkedAt := Some now \<rparr> else d)) m"
  using linkPending_prefix[of "[]" m now] by simp

lemma Map_get_map_values: "Map_get (map (\<lambda>(c, d). (c, f d)) m) k = map_option f (Map_get m k)"
  by (induction m) (auto simp: Map_get_def)

lemma map_values_keys: "map fst (map (\<lambda>(c, d). (c, f d)) m) = map fst m"
  by (induction m) auto

text \<open>
  C1. When the connection reports open, the handler turns every record of the registry
  whose status is \<open>pending\<close> into a \<open>linked\<close> record with \<open>linkedAt\<close> the current time, and
  leaves every other record (\<open>linked\<close>, \<open>expired\<close>) as it is; the keys and their order do
  not change. The keys of a \<open>Map\<close> are distinct.
\<close>

theorem onConnectionOpen_links_pending:
  assumes "distinct (map fst (pairingCodes st))"
  shows "pairingCodes (onConnectionOpen e st) =
           map (\<lambda>(c, d). (c, if status d = ''pending''
                               then d\<lparr> status := ''linked'', linkedAt := Some (Date_now e) \<rparr>
                               else d))
               (pairingCodes st) \<and>
         (\<forall>c d. Map_get (pairingCodes st) c = Some d \<longrightarrow>
            Map_get (pairingCodes (onConnectionOpen e st)) c =
              Some (if status d = ''pending''
                    then d\<lparr> status := ''linked'', linkedAt := Some (Date_now e) \<rparr>
                    else d)) \<and>
         (\<forall>c. Map_has (pairingCodes (onConnectionOpen e st)) c = Map_has (pairingCodes st) c)"
proof -
  have eq: "pairingCodes (onConnectionOpen e st) =
           map (\<lambda>(c, d). (c, if status d = ''pending''
                               then d\<lparr> status := ''linked'', linkedAt := Some (Date_now e) \<rparr>
                               else d))
               (pairingCodes st)"
    using linkPending_all[OF assms] by (simp add: onConnectionOpen_def Let_def)
  show ?thesis
    unfolding eq Map_get_map_values Map_has_def map_values_keys using eq by simp
qed

theorem onConnectionOpen_links_pending_witness:
  "pairingCodes (onConnectionOpen sampleEnv sampleState) =
     [(''AAAA1111'', (sampleRecord ''AAAA1111'' ''pending'' None)
                        \<lparr> status := ''linked'', linkedAt := Some 1000 \<rparr>),
      (''BBBB2222'', sampleRecord ''BBBB2222'' ''linked'' (Some 7)),
      (''CCCC3333'', sampleRecord ''CCCC3333'' ''expired'' None)]"
proof -
  have d: "distinct (map fst (pairingCodes sampleState))"
    by (simp add: sampleState_def initialState_def)
  from onConnectionOpen_links_pending[OF d, of sampleEnv] show ?thesis
    by (simp add: sampleState_def initialState_def sampleEnv_def sampleRecord_def)
qed

subsection \<open>Pairing registry: generation and expiry\<close>

lemma generateAlphanumericCode_first:
  assumes "0 < depth" and "list_ex isUpper (drawCode rnd pos)" and "list_ex isDigit (drawCode rnd pos)"
  shows "generateAlphanumericCode depth rnd pos = Some (drawCode rnd pos, pos + CODE_LENGTH)"
  using assms by (cases depth) (simp_all add: Let_def)

lemma generateNewPairingCode_effect:
  assumes "generateNewPairingCode e pn co st = Some ((c, dc, sid, ex, co'), st')"
  shows "st' = st\<lparr> pairingCodes :=
                    Map_set (pairingCodes st) c
                      \<lparr> code = c, displayCode = dc, phoneNumber = pn, country = co,
                        sessionId = sid, status = ''pending'', createdAt = Date_now e,
                        expiresAt = Date_now e + 600000, linkedAt = None, linkedTo = None,
                        qrData = currentQR st, qrImage = qrImageDataUrl st, attempts = 0,
                        generatedBy = COMPANY_NAME \<rparr>,
                  lastGeneratedCode := Some dc,
                  timers := timers st @ [(Date_now e + 600000, ExpireCode c dc)] \<rparr> \<and>
         ex = Date_now e + 600000 \<and> co' = co \<and> sid = generateSessionId e"
  using assms
  by (auto simp: generateNewPairingCode_def Let_def CODE_EXPIRY_MINUTES_def split: option.splits)

lemma sample_draw: "drawCode (Math_random sampleEnv) 0 = ''A1111111''"
  by (simp add: sampleEnv_def drawCode_def CODE_LENGTH_def alnumChars_def charAt_def
      floorTimes_def upt_rec)

lemma sample_code:
  "generateAlphanumericCode (callDepth sampleEnv) (Math_random sampleEnv) 0 = Some (''A1111111'', 8)"
proof -
  have "0 < callDepth sampleEnv" by (simp add: sampleEnv_def)
  moreover have "list_ex isUpper (drawCode (Math_random sampleEnv) 0)"
    "list_ex isDigit (drawCode (Math_random sampleEnv) 0)"
    unfolding sample_draw by (simp_all add: isUpper_def isDigit_def)
  ultimately show ?thesis
    using generateAlphanumericCode_first sample_draw by (simp add: CODE_LENGTH_def)
qed

lemma sample_sessionId: "generateSessionId sampleEnv = ''IAN_TECH_1000_ABABAB''"
proof -
  have n: "Date_now sampleEnv = 1000" by (simp add: sampleEnv_def)
  have d: "decimal 1000 = ''1000''" by (simp add: decimal.simps)
  have b: "crypto_randomBytes sampleEnv 3 = [171, 171, 171]"
    by (simp add: sampleEnv_def numeral_3_eq_3)
  have h: "toUpperCase (toHex [171, 171, 171]) = ''ABABAB''"
    by (simp add: toUpperCase_def toHex_def hexDigits_def)
  show ?thesis
    unfolding generateSessionId_def n d b h by (simp add: SESSION_PREFIX_def)
qed

lemma sample_displayCode:
  "generateDisplayCode (crypto_md5hex sampleEnv) rnd pos (Some ''IAN_TECH_1000_ABABAB'') = ''0HZQ-BCDE''"
  by (simp add: sampleEnv_def generateDisplayCode_def displayChars_def truthy_def substring_def
        substringFrom_def parseInt16_def indexOrUndefined_def upt_rec)

lemma sample_generate:
  "generateNewPairingCode sampleEnv pn co st =
     Some ((''A1111111'', ''0HZQ-BCDE'', ''IAN_TECH_1000_ABABAB'', 601000, co),
           st\<lparr> pairingCodes :=
                 Map_set (pairingCodes st) ''A1111111''
                   \<lparr> code = ''A1111111'', displayCode = ''0HZQ-BCDE'', phoneNumber = pn,
                     country = co, sessionId = ''IAN_TECH_1000_ABABAB'', status = ''pending'',
                     createdAt = 1000, expiresAt = 601000, linkedAt = None, linkedTo = None,
                     qrData = currentQR st, qrImage = qrImageDataUrl st, attempts = 0,
                     generatedBy = COMPANY_NAME \<rparr>,
               lastGeneratedCode := Some ''0HZQ-BCDE'',
               timers := timers st @ [(601000, ExpireCode ''A1111111'' ''0HZQ-BCDE'')] \<rparr>)"
proof -
  have n: "Date_now sampleEnv = 1000" by (simp add: sampleEnv_def)
  show ?thesis
    by (simp add: generateNewPairingCode_def sample_code sample_sessionId sample_displayCode
        Let_def CODE_EXPIRY_MINUTES_def n)
qed


lemma expireCode_pairingCodes:
  "pairingCodes (expireCode c s) =
     (if \<exists>d. Map_get (pairingCodes s) c = Some d \<and> status d = ''pending''
      then Map_delete (pairingCodes s) c else pairingCodes s)"
  by (auto simp: expireCode_def Map_has_get split: option.splits)

lemma fireTimer_expire:
  assumes "(t, ExpireCode c dc) \<in> set (timers s)" and "t \<le> Date_now e"
  shows "pairingCodes (fireTimer e outcome (t, ExpireCode c dc) s) =
     (if \<exists>d. Map_get (pairingCodes s) c = Some d \<and> status d = ''pending''
      then Map_delete (pairingCodes s) c else pairingCodes s)"
proof -
  have eq: "fireTimer e outcome (t, ExpireCode c dc) s =
          expireCode c (s\<lparr> timers := remove1 (t, ExpireCode c dc) (timers s) \<rparr>)"
    using assms by (simp add: fireTimer_def runTimerAction_def)
  have sel: "pairingCodes (s\<lparr> timers := remove1 (t, ExpireCode c dc) (timers s) \<rparr>) = pairingCodes s"
    by simp
  show ?thesis
    unfolding eq expireCode_pairingCodes sel ..
qed

text \<open>
  C2. A record created by \<open>generateNewPairingCode\<close> at time \<open>T\<close> is pending, expires at
  \<open>T + 600000\<close> ms, and comes with an expiry timer for that time. When the timer fires, in
  whatever state the server then is, the entry of the record's code is deleted if and only
  if it is still present with status \<open>pending\<close>; with any other status (\<open>linked\<close>) the
  registry is left as it is, and the entries of the other codes are never touched.
\<close>

theorem expiry_deletes_only_pending:
  assumes "generateNewPairingCode e pn co st = Some ((c, dc, sid, ex, co'), st')"
  shows "(\<exists>d. Map_get (pairingCodes st') c = Some d \<and> status d = ''pending'' \<and>
              createdAt d = Date_now e \<and> expiresAt d = Date_now e + 600000) \<and>
         (Date_now e + 600000, ExpireCode c dc) \<in> set (timers st') \<and>
         (\<forall>e' outcome s.
            (Date_now e + 600000, ExpireCode c dc) \<in> set (timers s) \<and>
            Date_now e + 600000 \<le> Date_now e' \<longrightarrow>
              ((Map_has (pairingCodes s) c \<and>
                \<not> Map_has (pairingCodes
                     (fireTimer e' outcome (Date_now e + 600000, ExpireCode c dc) s)) c)
                 \<longleftrightarrow> (\<exists>d. Map_get (pairingCodes s) c = Some d \<and> status d = ''pending'')) \<and>
              (\<forall>d. Map_get (pairingCodes s) c = Some d \<and> status d \<noteq> ''pending'' \<longrightarrow>
                 pairingCodes (fireTimer e' outcome (Date_now e + 600000, ExpireCode c dc) s)
                   = pairingCodes s) \<and>
              (\<forall>k. k \<noteq> c \<longrightarrow>
                 Map_get (pairingCodes
                   (fireTimer e' outcome (Date_now e + 600000, ExpireCode c dc) s)) k
                   = Map_get (pairingCodes s) k))"
proof -
  note eff = generateNewPairingCode_effect[OF assms]
  have st': "pairingCodes st' =
       Map_set (pairingCodes st) c
         \<lparr> code = c, displayCode = dc, phoneNumber = pn, country = co,
           sessionId = sid, status = ''pending'', createdAt = Date_now e,
           expiresAt = Date_now e + 600000, linkedAt = None, linkedTo = None,
           qrData = currentQR st, qrImage = qrImageDataUrl st, attempts = 0,
           generatedBy = COMPANY_NAME \<rparr>"
    and tm: "timers st' = timers st @ [(Date_now e + 600000, ExpireCode c dc)]"
    using eff by simp_all
  have a: "\<exists>d. Map_get (pairingCodes st') c = Some d \<and> status d = ''pending'' \<and>
              createdAt d = Date_now e \<and> expiresAt d = Date_now e + 600000"
    unfolding st' by (simp add: Map_get_set)
  have b: "(Date_now e + 600000, ExpireCode c dc) \<in> set (timers st')"
    unfolding tm by simp
  have c: "(Map_has (pairingCodes s) c \<and>
                \<not> Map_has (pairingCodes
                     (fireTimer e' outcome (Date_now e + 600000, ExpireCode c dc) s)) c)
                 \<longleftrightarrow> (\<exists>d. Map_get (pairingCodes s) c = Some d \<and> status d = ''pending'')"
       "\<forall>d. Map_get (pairingCodes s) c = Some d \<and> status d \<noteq> ''pending'' \<longrightarrow>
                 pairingCodes (fireTimer e' outcome (Date_now e + 600000, ExpireCode c dc) s)
                   = pairingCodes s"
       "\<forall>k. k \<noteq> c \<longrightarrow>
                 Map_get (pairingCodes
                   (fireTimer e' outcome (Date_now e + 600000, ExpireCode c dc) s)) k
                   = Map_get (pairingCodes s) k"
    if "(Date_now e + 600000, ExpireCode c dc) \<in> set (timers s)"
      and "Date_now e + 600000 \<le> Date_now e'" for e' outcome s
    unfolding fireTimer_expire[OF that]
    by (auto simp: Map_has_get Map_get_delete)
  show ?thesis using a b c by blast
qed

theorem expiry_deletes_only_pending_witness:
  "generateNewPairingCode sampleEnv None None initialState =
     Some ((''A1111111'', ''0HZQ-BCDE'', ''IAN_TECH_1000_ABABAB'', 601000, None), sampleGenerated) \<and>
   (601000, ExpireCode ''A1111111'' ''0HZQ-BCDE'') \<in> set (timers sampleGenerated) \<and>
   Map_has (pairingCodes sampleGenerated) ''A1111111'' \<and>
   \<not> Map_has (pairingCodes
        (fireTimer laterEnv InitReturns (601000, ExpireCode ''A1111111'' ''0HZQ-BCDE'')
           sampleGenerated)) ''A1111111'' \<and>
   (601000, ExpireCode ''A1111111'' ''0HZQ-BCDE'')
      \<in> set (timers (onConnectionOpen sampleEnv sampleGenerated)) \<and>
   pairingCodes
     (fireTimer laterEnv InitReturns (601000, ExpireCode ''A1111111'' ''0HZQ-BCDE'')
        (onConnectionOpen sampleEnv sampleGenerated))
     = pairingCodes (onConnectionOpen sampleEnv sampleGenerated) \<and>
   map_option status (Map_get (pairingCodes (onConnectionOpen sampleEnv sampleGenerated)) ''A1111111'')
     = Some ''linked''"
proof -
  have n: "Date_now sampleEnv = 1000" "Date_now laterEnv = 601000"
    by (simp_all add: sampleEnv_def laterEnv_def)
  have gen: "generateNewPairingCode sampleEnv None None initialState =
     Some ((''A1111111'', ''0HZQ-BCDE'', ''IAN_TECH_1000_ABABAB'', 601000, None), sampleGenerated)"
    unfolding sampleGenerated_def sample_generate by simp
  have regs: "pairingCodes sampleGenerated =
      [(''A1111111'',
        \<lparr> code = ''A1111111'', displayCode = ''0HZQ-BCDE'', phoneNumber = None,
          country = None, sessionId = ''IAN_TECH_1000_ABABAB'', status = ''pending'',
          createdAt = 1000, expiresAt = 601000, linkedAt = None, linkedTo = None,
          qrData = None, qrImage = None, attempts = 0, generatedBy = COMPANY_NAME \<rparr>)]"
    unfolding sampleGenerated_def sample_generate by (simp add: initialState_def)
  have tms: "timers sampleGenerated = [(601000, ExpireCode ''A1111111'' ''0HZQ-BCDE'')]"
    unfolding sampleGenerated_def sample_generate by (simp add: initialState_def)
  have t1: "(601000, ExpireCode ''A1111111'' ''0HZQ-BCDE'') \<in> set (timers sampleGenerated)"
    unfolding tms by simp
  have t2: "(601000, ExpireCode ''A1111111'' ''0HZQ-BCDE'')
      \<in> set (timers (onConnectionOpen sampleEnv sampleGenerated))"
    using tms by (simp add: onConnectionOpen_def Let_def)
  have h1: "Map_has (pairingCodes sampleGenerated) ''A1111111''"
    unfolding regs by (simp add: Map_has_def)
  have p1: "\<exists>d. Map_get (pairingCodes sampleGenerated) ''A1111111'' = Some d \<and> status d = ''pending''"
    unfolding regs by (simp add: Map_get_def)
  have l: "pairingCodes (onConnectionOpen sampleEnv sampleGenerated) =
      [(''A1111111'',
        \<lparr> code = ''A1111111'', displayCode = ''0HZQ-BCDE'', phoneNumber = None,
          country = None, sessionId = ''IAN_TECH_1000_ABABAB'', status = ''linked'',
          createdAt = 1000, expiresAt = 601000, linkedAt = Some 1000, linkedTo = None,
          qrData = None, qrImage = None, attempts = 0, generatedBy = COMPANY_NAME \<rparr>)]"
    by (simp add: onConnectionOpen_def Let_def regs n)
  have p2: "\<exists>d. Map_get (pairingCodes (onConnectionOpen sampleEnv sampleGenerated)) ''A1111111'' = Some d
               \<and> status d \<noteq> ''pending''"
    unfolding l by (simp add: Map_get_def)
  have l2: "map_option status (Map_get (pairingCodes (onConnectionOpen sampleEnv sampleGenerated)) ''A1111111'')
     = Some ''linked''"
    unfolding l by (simp add: Map_get_def)
  note th = expiry_deletes_only_pending[OF gen, unfolded n, simplified]
  from th have w1: "\<not> Map_has (pairingCodes
        (fireTimer laterEnv InitReturns (601000, ExpireCode ''A1111111'' ''0HZQ-BCDE'')
           sampleGenerated)) ''A1111111''"
    using t1 h1 p1 n(2) by (metis order_refl)
  from th have w2: "pairingCodes
     (fireTimer laterEnv InitReturns (601000, ExpireCode ''A1111111'' ''0HZQ-BCDE'')
        (onConnectionOpen sampleEnv sampleGenerated))
     = pairingCodes (onConnectionOpen sampleEnv sampleGenerated)"
    using t2 p2 n(2) by (metis order_refl)
  show ?thesis using gen t1 h1 w1 t2 w2 l2 by simp
qed

subsection \<open>Pairing registry: uniqueness of the codes\<close>

lemma onConnectionOpen_distinct:
  "distinct (map fst (pairingCodes st)) \<Longrightarrow> distinct (map fst (pairingCodes (onConnectionOpen e st)))"
proof -
  assume d: "distinct (map fst (pairingCodes st))"
  have "pairingCodes (onConnectionOpen e st) = linkPending (Date_now e) (pairingCodes st) (pairingCodes st)"
    by (simp add: onConnectionOpen_def Let_def)
  then have "map fst (pairingCodes (onConnectionOpen e st)) = map fst (pairingCodes st)"
    unfolding linkPending_all[OF d] by (simp only: map_values_keys)
  then show ?thesis using d by simp
qed

lemma expireCode_distinct:
  "distinct (map fst (pairingCodes st)) \<Longrightarrow> distinct (map fst (pairingCodes (expireCode k st)))"
  by (simp add: expireCode_pairingCodes Map_delete_distinct)

lemma generateNewPairingCode_code:
  assumes "generateNewPairingCode e pn co st = Some ((c, dc, sid, ex, co'), st')"
  shows "\<exists>p. generateAlphanumericCode (callDepth e) (Math_random e) 0 = Some (c, p)"
  using assms by (auto simp: generateNewPairingCode_def Let_def split: option.splits)

text \<open>
  A collision: the registry holds a linked record under \<open>A1111111\<close>, and the generator
  draws \<open>A1111111\<close>. No other code is drawn: the call returns \<open>A1111111\<close>, and the registry
  then holds the new pending record under that key, the linked one being gone.
\<close>

theorem regeneration_on_collision_counterexample:
  "Map_get (pairingCodes collisionState) ''A1111111'' =
     Some (sampleRecord ''A1111111'' ''linked'' (Some 7)) \<and>
   map_option fst (generateNewPairingCode sampleEnv None None collisionState) =
     Some (''A1111111'', ''0HZQ-BCDE'', ''IAN_TECH_1000_ABABAB'', 601000, None) \<and>
   map_option (\<lambda>r. pairingCodes (snd r)) (generateNewPairingCode sampleEnv None None collisionState) =
     Some [(''A1111111'',
            \<lparr> code = ''A1111111'', displayCode = ''0HZQ-BCDE'', phoneNumber = None,
              country = None, sessionId = ''IAN_TECH_1000_ABABAB'', status = ''pending'',
              createdAt = 1000, expiresAt = 601000, linkedAt = None, linkedTo = None,
              qrData = None, qrImage = None, attempts = 0, generatedBy = COMPANY_NAME \<rparr>)] \<and>
   sessionId (sampleRecord ''A1111111'' ''linked'' (Some 7)) \<noteq> ''IAN_TECH_1000_ABABAB''"
  unfolding sample_generate
  by (simp add: collisionState_def initialState_def Map_get_def sampleRecord_def)

text \<open>
  C7, as the code has it. The keys of the registry stay distinct under every operation on
  it (a generation, an expiry, the opening of the connection), so a code is unique as a key
  while it is present. \<open>generateNewPairingCode\<close> never looks at the registry when it draws
  the code: the code is what \<open>generateAlphanumericCode\<close> returns, and the new record is
  stored under it. When that code is already present, the new record takes the place of the
  existing one (the keys do not change); otherwise it is appended. The entries of all the
  other codes are left as they are.
\<close>

theorem generateNewPairingCode_replaces:
  assumes "distinct (map fst (pairingCodes st))"
    and "generateNewPairingCode e pn co st = Some ((c, dc, sid, ex, co'), st')"
  shows "distinct (map fst (pairingCodes st')) \<and>
         distinct (map fst (pairingCodes (expireCode k st))) \<and>
         distinct (map fst (pairingCodes (onConnectionOpen e' st))) \<and>
         (\<exists>p. generateAlphanumericCode (callDepth e) (Math_random e) 0 = Some (c, p)) \<and>
         Map_get (pairingCodes st') c =
           Some \<lparr> code = c, displayCode = dc, phoneNumber = pn, country = co,
                  sessionId = sid, status = ''pending'', createdAt = Date_now e,
                  expiresAt = Date_now e + 600000, linkedAt = None, linkedTo = None,
                  qrData = currentQR st, qrImage = qrImageDataUrl st, attempts = 0,
                  generatedBy = COMPANY_NAME \<rparr> \<and>
         (\<forall>k'. k' \<noteq> c \<longrightarrow> Map_get (pairingCodes st') k' = Map_get (pairingCodes st) k') \<and>
         map fst (pairingCodes st') =
           (if Map_has (pairingCodes st) c then map fst (pairingCodes st)
            else map fst (pairingCodes st) @ [c])"
proof -
  note eff = generateNewPairingCode_effect[OF assms(2)]
  have st': "pairingCodes st' =
       Map_set (pairingCodes st) c
         \<lparr> code = c, displayCode = dc, phoneNumber = pn, country = co,
           sessionId = sid, status = ''pending'', createdAt = Date_now e,
           expiresAt = Date_now e + 600000, linkedAt = None, linkedTo = None,
           qrData = currentQR st, qrImage = qrImageDataUrl st, attempts = 0,
           generatedBy = COMPANY_NAME \<rparr>"
    using eff by simp
  have "distinct (map fst (pairingCodes st'))"
    unfolding st' using assms(1) by (rule Map_set_distinct)
  moreover have "map fst (pairingCodes st') =
           (if Map_has (pairingCodes st) c then map fst (pairingCodes st)
            else map fst (pairingCodes st) @ [c])"
    unfolding st' Map_set_keys Map_has_def ..
  moreover have "\<forall>k'. k' \<noteq> c \<longrightarrow> Map_get (pairingCodes st') k' = Map_get (pairingCodes st) k'"
    unfolding st' by (simp add: Map_get_set)
  moreover have "Map_get (pairingCodes st') c =
           Some \<lparr> code = c, displayCode = dc, phoneNumber = pn, country = co,
                  sessionId = sid, status = ''pending'', createdAt = Date_now e,
                  expiresAt = Date_now e + 600000, linkedAt = None, linkedTo = None,
                  qrData = currentQR st, qrImage = qrImageDataUrl st, attempts = 0,
                  generatedBy = COMPANY_NAME \<rparr>"
    unfolding st' by (simp add: Map_get_set)
  ultimately show ?thesis
    using expireCode_distinct[OF assms(1)] onConnectionOpen_distinct[OF assms(1)]
      generateNewPairingCode_code[OF assms(2)]
    by blast
qed

theorem generateNewPairingCode_replaces_witness:
  "distinct (map fst (pairingCodes collisionState)) \<and>
   Map_has (pairingCodes collisionState) ''A1111111'' \<and>
   map_option fst (generateNewPairingCode sampleEnv None None collisionState) =
     Some (''A1111111'', ''0HZQ-BCDE'', ''IAN_TECH_1000_ABABAB'', 601000, None) \<and>
   map_option (\<lambda>r. map fst (pairingCodes (snd r)))
     (generateNewPairingCode sampleEnv None None collisionState) = Some [''A1111111''] \<and>
   map_option (\<lambda>r. map_option status (Map_get (pairingCodes (snd r)) ''A1111111''))
     (generateNewPairingCode sampleEnv None None collisionState) = Some (Some ''pending'')"
proof -
  have d: "distinct (map fst (pairingCodes collisionState))"
    by (simp add: collisionState_def initialState_def)
  have h: "Map_has (pairingCodes collisionState) ''A1111111''"
    by (simp add: collisionState_def initialState_def Map_has_def)
  obtain st' where gen: "generateNewPairingCode sampleEnv None None collisionState =
     Some ((''A1111111'', ''0HZQ-BCDE'', ''IAN_TECH_1000_ABABAB'', 601000, None), st')"
    unfolding sample_generate by simp
  have k: "map fst (pairingCodes collisionState) = [''A1111111'']"
    by (simp add: collisionState_def initialState_def)
  from generateNewPairingCode_replaces[OF d gen]
  have "map fst (pairingCodes st') = [''A1111111'']"
    and "map_option status (Map_get (pairingCodes st') ''A1111111'') = Some ''pending''"
    using h k by simp_all
  then show ?thesis using d h gen by simp
qed

subsection \<open>Connection manager: qr events\<close>

lemma generateNewPairingCode_attempts:
  "generateNewPairingCode e pn co (st\<lparr> autoActivationAttempts := n \<rparr>) =
     map_option (\<lambda>(r, s). (r, s\<lparr> autoActivationAttempts := n \<rparr>)) (generateNewPairingCode e pn co st)"
  by (simp add: generateNewPairingCode_def Let_def split: option.splits)

lemma generateNewPairingCode_keeps:
  assumes "generateNewPairingCode e pn co st = Some (r, st')"
  shows "autoActivationAttempts st' = autoActivationAttempts st \<and> currentQR st' = currentQR st \<and>
         botStatus st' = botStatus st \<and> qrImageDataUrl st' = qrImageDataUrl st \<and>
         activeSocket st' = activeSocket st"
proof -
  obtain c dc sid ex co' where r: "r = (c, dc, sid, ex, co')" by (cases r)
  from generateNewPairingCode_effect[OF assms[unfolded r]] show ?thesis by simp
qed

lemma onQr_auto:
  assumes "truthy qr"
  shows "onQr e True qr st =
     (case QRCode_toDataURL e (case qr of Some q \<Rightarrow> q | None \<Rightarrow> []) of
        Inl msg \<Rightarrow> st\<lparr> currentQR := qr, botStatus := ''qr_ready'',
                        autoActivationAttempts := autoActivationAttempts st + 1 \<rparr>
      | Inr url \<Rightarrow>
          (case generateNewPairingCode e None None
                  (st\<lparr> currentQR := qr, botStatus := ''qr_ready'', qrImageDataUrl := Some url \<rparr>) of
             None \<Rightarrow> st\<lparr> currentQR := qr, botStatus := ''qr_ready'', qrImageDataUrl := Some url,
                          autoActivationAttempts := autoActivationAttempts st + 1 \<rparr>
           | Some (r, s) \<Rightarrow> s\<lparr> lastGeneratedCode := Some (fst r),
                                 autoActivationAttempts := autoActivationAttempts st + 1 \<rparr>))"
proof (cases "QRCode_toDataURL e (case qr of Some q \<Rightarrow> q | None \<Rightarrow> [])")
  case (Inl msg)
  then show ?thesis using assms by (simp add: onQr_def Let_def)
next
  case (Inr url)
  show ?thesis
  proof (cases "generateNewPairingCode e None None
                  (st\<lparr> currentQR := qr, botStatus := ''qr_ready'', qrImageDataUrl := Some url \<rparr>)")
    case None
    then show ?thesis using assms Inr by (simp add: onQr_def Let_def)
  next
    case (Some p)
    obtain r s where p: "p = (r, s)" by (cases p)
    from generateNewPairingCode_keeps[OF Some[unfolded p]]
    have "autoActivationAttempts s = autoActivationAttempts st" by simp
    then show ?thesis using assms Inr Some p by (simp add: onQr_def Let_def split: prod.splits)
  qed
qed

lemma onQr_fields:
  assumes "truthy qr"
  shows "autoActivationAttempts (onQr e True qr st) = autoActivationAttempts st + 1"
    and "currentQR (onQr e True qr st) = qr"
    and "botStatus (onQr e True qr st) = ''qr_ready''"
proof -
  have "autoActivationAttempts (onQr e True qr st) = autoActivationAttempts st + 1 \<and>
        currentQR (onQr e True qr st) = qr \<and> botStatus (onQr e True qr st) = ''qr_ready''"
  proof (cases "QRCode_toDataURL e (case qr of Some q \<Rightarrow> q | None \<Rightarrow> [])")
    case (Inl msg)
    then show ?thesis unfolding onQr_auto[OF assms] by simp
  next
    case (Inr url)
    show ?thesis
    proof (cases "generateNewPairingCode e None None
                  (st\<lparr> currentQR := qr, botStatus := ''qr_ready'', qrImageDataUrl := Some url \<rparr>)")
      case None
      then show ?thesis unfolding onQr_auto[OF assms] using Inr by simp
    next
      case (Some p)
      obtain r s where p: "p = (r, s)" by (cases p)
      from generateNewPairingCode_keeps[OF Some[unfolded p]]
      show ?thesis unfolding onQr_auto[OF assms] using Inr Some p by simp
    qed
  qed
  then show "autoActivationAttempts (onQr e True qr st) = autoActivationAttempts st + 1"
    and "currentQR (onQr e True qr st) = qr"
    and "botStatus (onQr e True qr st) = ''qr_ready''" by simp_all
qed

lemma onQr_counter_independent:
  assumes "truthy qr"
  shows "onQr e True qr (st\<lparr> autoActivationAttempts := n \<rparr>) =
           (onQr e True qr st)\<lparr> autoActivationAttempts := n + 1 \<rparr>"
proof (cases "QRCode_toDataURL e (case qr of Some q \<Rightarrow> q | None \<Rightarrow> [])")
  case (Inl msg)
  then show ?thesis unfolding onQr_auto[OF assms] by simp
next
  case (Inr url)
  have sw: "st\<lparr> autoActivationAttempts := n, currentQR := qr, botStatus := ''qr_ready'',
                 qrImageDataUrl := Some url \<rparr> =
            st\<lparr> currentQR := qr, botStatus := ''qr_ready'', qrImageDataUrl := Some url,
                 autoActivationAttempts := n \<rparr>" by simp
  show ?thesis
  proof (cases "generateNewPairingCode e None None
                  (st\<lparr> currentQR := qr, botStatus := ''qr_ready'', qrImageDataUrl := Some url \<rparr>)")
    case None
    then show ?thesis
      unfolding onQr_auto[OF assms] using Inr
      by (simp add: sw generateNewPairingCode_attempts)
  next
    case (Some p)
    obtain r s where p: "p = (r, s)" by (cases p)
    show ?thesis
      unfolding onQr_auto[OF assms] using Inr Some p
      by (simp add: sw generateNewPairingCode_attempts)
  qed
qed

text \<open>
  Four qr events in auto-activation mode, from the initial state: the counter is 4, above
  the maximum of 3, and the fourth event is handled like the first (its QR is the current
  one, the status is \<open>qr_ready\<close>).
\<close>

theorem attempts_capped_counterexample:
  "autoActivationAttempts
     (onQr sampleEnv True (Some ''qr-4'')
       (onQr sampleEnv True (Some ''qr-3'')
         (onQr sampleEnv True (Some ''qr-2'')
           (onQr sampleEnv True (Some ''qr-1'') initialState)))) = 4 \<and>
   MAX_AUTO_ACTIVATION_ATTEMPTS = 3 \<and>
   currentQR
     (onQr sampleEnv True (Some ''qr-4'')
       (onQr sampleEnv True (Some ''qr-3'')
         (onQr sampleEnv True (Some ''qr-2'')
           (onQr sampleEnv True (Some ''qr-1'') initialState)))) = Some ''qr-4'' \<and>
   botStatus
     (onQr sampleEnv True (Some ''qr-4'')
       (onQr sampleEnv True (Some ''qr-3'')
         (onQr sampleEnv True (Some ''qr-2'')
           (onQr sampleEnv True (Some ''qr-1'') initialState)))) = ''qr_ready''"
proof -
  have t: "truthy (Some ''qr-1'')" "truthy (Some ''qr-2'')" "truthy (Some ''qr-3'')"
    "truthy (Some ''qr-4'')" by (simp_all add: truthy_def)
  have "autoActivationAttempts initialState = 0" by (simp add: initialState_def)
  then show ?thesis
    by (simp add: onQr_fields t MAX_AUTO_ACTIVATION_ATTEMPTS_def)
qed

text \<open>
  C8, as the code has it. Each qr event in auto-activation mode increments the attempt
  counter by one, whatever its value: there is no cap. The counter is set back to zero by
  the handler of the open connection and by the callback of the 30-second timer of a
  failed initialization; a run of \<open>initWhatsApp\<close> and the expiry of a code leave it as it
  is. The handling of a qr event does not depend on the counter: the QR becomes the current
  one, the status becomes \<open>qr_ready\<close>, and the state after the event is the same for every
  value of the counter, the counter itself apart (reaching the maximum only writes to the
  console, which is not part of the state). Without auto-activation a qr event changes
  nothing.
\<close>

theorem onQr_counts_without_cap:
  assumes "truthy qr"
  shows "autoActivationAttempts (onQr e True qr st) = autoActivationAttempts st + 1 \<and>
         currentQR (onQr e True qr st) = qr \<and>
         botStatus (onQr e True qr st) = ''qr_ready'' \<and>
         onQr e True qr (st\<lparr> autoActivationAttempts := n \<rparr>) =
           (onQr e True qr st)\<lparr> autoActivationAttempts := n + 1 \<rparr> \<and>
         autoActivationAttempts (onConnectionOpen e' st) = 0 \<and>
         onQr e False qr st = st \<and>
         autoActivationAttempts (runTimerAction e' outcome ResetAndInitWhatsApp s) = 0 \<and>
         autoActivationAttempts (initWhatsApp e' outcome a s) = autoActivationAttempts s \<and>
         autoActivationAttempts (expireCode k s) = autoActivationAttempts s"
proof -
  have r: "autoActivationAttempts (runTimerAction e' outcome ResetAndInitWhatsApp s) = 0"
    by (cases outcome) (simp_all add: runTimerAction_def initWhatsApp_def Let_def)
  have i: "autoActivationAttempts (initWhatsApp e' outcome a s) = autoActivationAttempts s"
    by (cases outcome) (simp_all add: initWhatsApp_def Let_def)
  have x: "autoActivationAttempts (expireCode k s) = autoActivationAttempts s"
    by (simp add: expireCode_def)
  show ?thesis
    using onQr_fields[OF assms] onQr_counter_independent[OF assms] r i x
    by (simp add: onConnectionOpen_def Let_def onQr_def)
qed

theorem onQr_counts_without_cap_witness:
  "truthy (Some ''qr-1'') \<and>
   autoActivationAttempts
     (onQr sampleEnv True (Some ''qr-1'') (initialState\<lparr> autoActivationAttempts := 3 \<rparr>)) = 4 \<and>
   onQr sampleEnv True (Some ''qr-1'') (initialState\<lparr> autoActivationAttempts := 3 \<rparr>) =
     (onQr sampleEnv True (Some ''qr-1'') initialState)\<lparr> autoActivationAttempts := 4 \<rparr> \<and>
   autoActivationAttempts
     (runTimerAction laterEnv InitThrows ResetAndInitWhatsApp
        (initialState\<lparr> autoActivationAttempts := 4, botStatus := ''error'' \<rparr>)) = 0 \<and>
   autoActivationAttempts
     (onConnectionOpen sampleEnv (initialState\<lparr> autoActivationAttempts := 4 \<rparr>)) = 0"
proof -
  have t: "truthy (Some ''qr-1'')" by (simp add: truthy_def)
  from onQr_counts_without_cap[OF t, of sampleEnv "initialState\<lparr> autoActivationAttempts := 3 \<rparr>" 3
      sampleEnv]
    onQr_counts_without_cap[OF t, of sampleEnv initialState 3 sampleEnv]
    onQr_counts_without_cap[OF t, of sampleEnv "initialState\<lparr> autoActivationAttempts := 4 \<rparr>" 3
      sampleEnv]
    onQr_counts_without_cap[OF t, of sampleEnv initialState 3 laterEnv InitThrows
      "initialState\<lparr> autoActivationAttempts := 4, botStatus := ''error'' \<rparr>"]
  show ?thesis using t by simp
qed

subsection \<open>Connection manager: failed initialization\<close>

lemma initWhatsApp_throws:
  "initWhatsApp e InitThrows a st =
     st\<lparr> botStatus := ''error'',
          timers := timers st @
            [if autoActivationAttempts st < 3 then (Date_now e + 10000, InitWhatsApp True)
             else (Date_now e + 30000, ResetAndInitWhatsApp)] \<rparr>"
  by (simp add: initWhatsApp_def Let_def MAX_AUTO_ACTIVATION_ATTEMPTS_def)

lemma fireTimer_retry:
  assumes "t \<in> set (timers s)" and "fst t \<le> Date_now e"
    and "snd t = InitWhatsApp True \<or> snd t = ResetAndInitWhatsApp"
  shows "botStatus (fireTimer e InitThrows t s) = ''error'' \<and>
         (\<exists>t'. timers (fireTimer e InitThrows t s) = remove1 t (timers s) @ [t'] \<and>
               (t' = (Date_now e + 10000, InitWhatsApp True) \<or>
                t' = (Date_now e + 30000, ResetAndInitWhatsApp)))"
  using assms
  by (auto simp: fireTimer_def runTimerAction_def initWhatsApp_throws)

text \<open>
  C9. When the body of \<open>initWhatsApp\<close> throws, the status becomes \<open>error\<close> and exactly one
  timer is added: \<open>initWhatsApp(true)\<close> after 10 seconds while the attempt counter is below
  3, and otherwise, after 30 seconds, the callback that sets the counter to zero and then
  calls \<open>initWhatsApp(true)\<close>. So a failed initialization always leaves a retry pending,
  and when that retry fires and fails too, it leaves the next one.
\<close>

theorem initWhatsApp_failure_retries:
  "botStatus (initWhatsApp e InitThrows a st) = ''error'' \<and>
   timers (initWhatsApp e InitThrows a st) =
     timers st @
       [if autoActivationAttempts st < 3 then (Date_now e + 10000, InitWhatsApp True)
        else (Date_now e + 30000, ResetAndInitWhatsApp)] \<and>
   autoActivationAttempts (initWhatsApp e InitThrows a st) = autoActivationAttempts st \<and>
   runTimerAction e' outcome (InitWhatsApp True) s = initWhatsApp e' outcome True s \<and>
   runTimerAction e' outcome ResetAndInitWhatsApp s =
     initWhatsApp e' outcome True (s\<lparr> autoActivationAttempts := 0 \<rparr>) \<and>
   autoActivationAttempts (runTimerAction e' outcome ResetAndInitWhatsApp s) = 0 \<and>
   (\<forall>t. t \<in> set (timers s) \<and> fst t \<le> Date_now e' \<and>
        (snd t = InitWhatsApp True \<or> snd t = ResetAndInitWhatsApp) \<longrightarrow>
        botStatus (fireTimer e' InitThrows t s) = ''error'' \<and>
        (\<exists>t'. timers (fireTimer e' InitThrows t s) = remove1 t (timers s) @ [t'] \<and>
              (t' = (Date_now e' + 10000, InitWhatsApp True) \<or>
               t' = (Date_now e' + 30000, ResetAndInitWhatsApp))))"
proof -
  have "autoActivationAttempts (runTimerAction e' outcome ResetAndInitWhatsApp s) = 0"
    by (cases outcome) (simp_all add: runTimerAction_def initWhatsApp_def Let_def)
  then show ?thesis
    using fireTimer_retry[of _ s e']
    by (simp add: initWhatsApp_throws runTimerAction_def)
qed

theorem initWhatsApp_failure_retries_witness:
  "timers (initWhatsApp sampleEnv InitThrows True initialState) = [(11000, InitWhatsApp True)] \<and>
   timers (initWhatsApp sampleEnv InitThrows True (initialState\<lparr> autoActivationAttempts := 3 \<rparr>))
     = [(31000, ResetAndInitWhatsApp)] \<and>
   (31000, ResetAndInitWhatsApp)
     \<in> set (timers (initWhatsApp sampleEnv InitThrows True
                       (initialState\<lparr> autoActivationAttempts := 3 \<rparr>))) \<and>
   fst (31000 :: nat, ResetAndInitWhatsApp) \<le> Date_now laterEnv \<and>
   botStatus (fireTimer laterEnv InitThrows (31000, ResetAndInitWhatsApp)
     (initWhatsApp sampleEnv InitThrows True (initialState\<lparr> autoActivationAttempts := 3 \<rparr>)))
     = ''error'' \<and>
   timers (fireTimer laterEnv InitThrows (31000, ResetAndInitWhatsApp)
     (initWhatsApp sampleEnv InitThrows True (initialState\<lparr> autoActivationAttempts := 3 \<rparr>)))
     = [(611000, InitWhatsApp True)]"
proof -
  have n: "Date_now sampleEnv = 1000" "Date_now laterEnv = 601000"
    by (simp_all add: sampleEnv_def laterEnv_def)
  note th = initWhatsApp_failure_retries[of sampleEnv True _ laterEnv InitThrows]
  have a: "timers (initWhatsApp sampleEnv InitThrows True initialState) = [(11000, InitWhatsApp True)]"
    using th[of initialState] by (simp add: initialState_def n)
  have b: "timers (initWhatsApp sampleEnv InitThrows True (initialState\<lparr> autoActivationAttempts := 3 \<rparr>))
     = [(31000, ResetAndInitWhatsApp)]"
    using th[of "initialState\<lparr> autoActivationAttempts := 3 \<rparr>"] by (simp add: initialState_def n)
  have c: "timers (fireTimer laterEnv InitThrows (31000, ResetAndInitWhatsApp)
     (initWhatsApp sampleEnv InitThrows True (initialState\<lparr> autoActivationAttempts := 3 \<rparr>)))
     = [(611000, InitWhatsApp True)]"
    by (simp add: fireTimer_def b n runTimerAction_def initWhatsApp_throws initialState_def)
  from th[of initialState "initWhatsApp sampleEnv InitThrows True (initialState\<lparr> autoActivationAttempts := 3 \<rparr>)"]
  have d: "botStatus (fireTimer laterEnv InitThrows (31000, ResetAndInitWhatsApp)
     (initWhatsApp sampleEnv InitThrows True (initialState\<lparr> autoActivationAttempts := 3 \<rparr>)))
     = ''error''"
    using b n by simp
  show ?thesis using a b c d n by simp
qed

subsection \<open>HTTP API\<close>






end
